theory Spec2Isabelle
  imports Main "HOL-Library.Sublist" "HOL-Library.List_Lexorder" "HOL-Library.Char_ord"
begin

section \<open>Data model (types.ts)\<close>

datatype Availability = Free | Booked

text \<open>
  The interface \<open>TimeSlot\<close>. The optional attribute \<open>booking_person_name?\<close> is an
  option: \<open>None\<close> when the stored item has no such attribute.
\<close>

record TimeSlot =
  carer_id :: string
  date_time_slot :: string
  availability :: Availability
  booking_person_name :: "string option"
  date :: string
  time_slot :: string

text \<open>
  The interface \<open>BookingRequest\<close>. Its fields are called \<open>carer_id\<close>, \<open>date\<close>,
  \<open>time_slot\<close> and \<open>person_name\<close> in the source; the first three are prefixed here
  because \<open>TimeSlot\<close> already owns those selectors.
\<close>

record BookingRequest =
  booking_carer_id :: string
  booking_date :: string
  booking_time_slot :: string
  person_name :: string

text \<open>The interface \<open>AvailabilityQuery\<close>: both fields are optional strings.\<close>

record AvailabilityQuery =
  query_carer_id :: "string option"
  query_date :: "string option"

text \<open>The object \<open>{ success: boolean; message: string }\<close> returned by book and cancel.\<close>

record OpResult =
  success :: bool
  message :: string

section \<open>The table behind the document client\<close>

text \<open>
  The table \<open>healthcarer-appointments\<close> is a collection of items, each carrying its own
  key attributes: partition key \<open>carer_id\<close>, sort key \<open>date_time_slot\<close>. It is kept as the
  list of its items; the order of the list stands for whatever order the store returns.

  An error thrown by \<open>docClient.send\<close> is an object with a \<open>name\<close> and a \<open>message\<close>.
  Every request is one atomic step of the store. The environment decides whether a request
  is answered or fails for a reason of its own (unreachable, throttled, ...): each request
  takes a \<open>store_error option\<close>, \<open>Some e\<close> meaning that it throws \<open>e\<close> and leaves the
  table as it was.
\<close>

datatype store_error = StoreError (error_name: string) (error_message: string)

type_synonym table = "TimeSlot list"

type_synonym slot_key = "string \<times> string"

definition key_of :: "TimeSlot \<Rightarrow> slot_key" where
  "key_of item = (carer_id item, date_time_slot item)"

definition get_item :: "slot_key \<Rightarrow> table \<Rightarrow> TimeSlot option" where
  "get_item k t = find (\<lambda>item. key_of item = k) t"

definition ConditionalCheckFailedException :: store_error where
  "ConditionalCheckFailedException =
     StoreError ''ConditionalCheckFailedException'' ''The conditional request failed''"

text \<open>
  \<open>PutCommand\<close> with a condition on the item currently stored under the key of the new
  item (\<open>None\<close> when there is none). A put whose condition holds replaces that item.
\<close>

definition put_item ::
  "store_error option \<Rightarrow> TimeSlot \<Rightarrow> (TimeSlot option \<Rightarrow> bool) \<Rightarrow> table
     \<Rightarrow> (store_error + unit) \<times> table" where
  "put_item fault item condition t =
     (case fault of
        Some e \<Rightarrow> (Inl e, t)
      | None \<Rightarrow>
          if condition (get_item (key_of item) t)
          then (Inr (), filter (\<lambda>old. key_of old \<noteq> key_of item) t @ [item])
          else (Inl ConditionalCheckFailedException, t))"

text \<open>
  The condition \<open>attribute_not_exists(carer_id)\<close>: \<open>carer_id\<close> is a key attribute, which
  every stored item has, so the condition holds exactly when no item is stored under the key.
\<close>

definition attribute_not_exists_carer_id :: "TimeSlot option \<Rightarrow> bool" where
  "attribute_not_exists_carer_id old = (case old of None \<Rightarrow> True | Some _ \<Rightarrow> False)"

text \<open>
  \<open>UpdateCommand\<close> with the condition \<open>availability = :expected\<close> and an update
  expression that rewrites attributes of the stored item. The condition is false when no
  item is stored under the key (the attribute is missing), so nothing is created then.
\<close>

definition update_item ::
  "store_error option \<Rightarrow> slot_key \<Rightarrow> Availability \<Rightarrow> (TimeSlot \<Rightarrow> TimeSlot) \<Rightarrow> table
     \<Rightarrow> (store_error + unit) \<times> table" where
  "update_item fault k expected update t =
     (case fault of
        Some e \<Rightarrow> (Inl e, t)
      | None \<Rightarrow>
          (case get_item k t of
             None \<Rightarrow> (Inl ConditionalCheckFailedException, t)
           | Some item \<Rightarrow>
               if availability item = expected
               then (Inr (), map (\<lambda>old. if key_of old = k then update old else old) t)
               else (Inl ConditionalCheckFailedException, t)))"

text \<open>
  \<open>QueryCommand\<close> with a key condition and \<open>ScanCommand\<close>. The response is taken to hold
  every matching item (the catalogue fits one response page).
\<close>

definition query_items ::
  "store_error option \<Rightarrow> (TimeSlot \<Rightarrow> bool) \<Rightarrow> table \<Rightarrow> store_error + TimeSlot list" where
  "query_items fault key_condition t =
     (case fault of Some e \<Rightarrow> Inl e | None \<Rightarrow> Inr (filter key_condition t))"

definition scan_items :: "store_error option \<Rightarrow> table \<Rightarrow> store_error + TimeSlot list" where
  "scan_items fault t = (case fault of Some e \<Rightarrow> Inl e | None \<Rightarrow> Inr t)"

section \<open>generateTimeSlots\<close>

definition digit_char :: "nat \<Rightarrow> char" where
  "digit_char d = ''0123456789'' ! d"

text \<open>\<open>Number.prototype.toString\<close> on a non-negative integer: its decimal digits.\<close>

fun toString :: "nat \<Rightarrow> string" where
  "toString n =
     (if n < 10 then [digit_char n] else toString (n div 10) @ [digit_char (n mod 10)])"

declare toString.simps [simp del]

definition padStart :: "nat \<Rightarrow> char \<Rightarrow> string \<Rightarrow> string" where
  "padStart targetLength c s = replicate (targetLength - length s) c @ s"

definition timeString :: "nat \<Rightarrow> nat \<Rightarrow> string" where
  "timeString hour minute =
     padStart 2 CHR ''0'' (toString hour) @ padStart 2 CHR ''0'' (toString minute)"

text \<open>The inner loop \<open>for (let minute = 0; minute < 60; minute += 30)\<close>.\<close>

function minute_loop :: "nat \<Rightarrow> nat \<Rightarrow> string list \<Rightarrow> string list" where
  "minute_loop hour minute slots =
     (if minute < 60
      then minute_loop hour (minute + 30) (slots @ [timeString hour minute])
      else slots)"
  by pat_completeness auto
termination
  by (relation "measure (\<lambda>(hour, minute, slots). 60 - minute)") auto

text \<open>The outer loop \<open>for (let hour = 9; hour <= 15; hour++)\<close>.\<close>

function hour_loop :: "nat \<Rightarrow> string list \<Rightarrow> string list" where
  "hour_loop hour slots =
     (if hour \<le> 15 then hour_loop (hour + 1) (minute_loop hour 0 slots) else slots)"
  by pat_completeness auto
termination
  by (relation "measure (\<lambda>(hour, slots). 16 - hour)") auto

declare minute_loop.simps [simp del] hour_loop.simps [simp del]

definition generateTimeSlots :: "string list" where
  "generateTimeSlots = hour_loop 9 []"

section \<open>initializeTimeSlots\<close>

definition carers :: "string list" where
  "carers = [''Doctor1'', ''Doctor2'', ''doctor3'']"

definition dates :: "string list" where
  "dates = [''20250728'', ''20250729'', ''20250730'']"

definition new_item :: "string \<Rightarrow> string \<Rightarrow> string \<Rightarrow> TimeSlot" where
  "new_item carer d timeSlot =
     \<lparr>carer_id = carer, date_time_slot = d @ ''#'' @ timeSlot, availability = Free,
      booking_person_name = None, date = d, time_slot = timeSlot\<rparr>"

text \<open>The items of the three nested loops, in the order the loops build them.\<close>

definition catalogue_items :: "string list \<Rightarrow> string list \<Rightarrow> string list \<Rightarrow> TimeSlot list" where
  "catalogue_items cs ds timeSlots =
     concat (map (\<lambda>carer. concat (map (\<lambda>d. map (new_item carer d) timeSlots) ds)) cs)"

text \<open>\<open>.catch(() => {})\<close>: whatever the rejection, the promise resolves.\<close>

definition catch_ignore :: "store_error + unit \<Rightarrow> store_error + unit" where
  "catch_ignore r = (case r of Inl e \<Rightarrow> Inr () | Inr u \<Rightarrow> Inr u)"

text \<open>
  The conditional puts pushed onto \<open>promises\<close>, each followed by its \<open>catch\<close>. The
  environment's answer to the put of an item is \<open>faults item\<close>. The requests are issued
  together; the store takes them one at a time, here in the order of issue.
\<close>

fun send_puts ::
  "(TimeSlot \<Rightarrow> store_error option) \<Rightarrow> TimeSlot list \<Rightarrow> table
     \<Rightarrow> (store_error + unit) list \<times> table" where
  "send_puts faults [] t = ([], t)"
| "send_puts faults (item # items) t =
     (case put_item (faults item) item attribute_not_exists_carer_id t of
        (r, t') \<Rightarrow>
          (case send_puts faults items t' of
             (rs, t'') \<Rightarrow> (catch_ignore r # rs, t'')))"

text \<open>\<open>Promise.all\<close>: rejects with the first rejection, resolves otherwise.\<close>

definition promise_all :: "(store_error + unit) list \<Rightarrow> store_error + unit" where
  "promise_all rs = (case find isl rs of Some (Inl e) \<Rightarrow> Inl e | _ \<Rightarrow> Inr ())"

definition initializeTimeSlots ::
  "(TimeSlot \<Rightarrow> store_error option) \<Rightarrow> table \<Rightarrow> (store_error + unit) \<times> table" where
  "initializeTimeSlots faults t =
     (case send_puts faults (catalogue_items carers dates generateTimeSlots) t of
        (rs, t') \<Rightarrow> (promise_all rs, t'))"

section \<open>getAvailability\<close>

text \<open>
  The test \<open>query.carer_id\<close> of a \<open>string | undefined\<close>: an absent field and the empty
  string are both falsy.
\<close>

definition truthy :: "string option \<Rightarrow> bool" where
  "truthy s = (case s of None \<Rightarrow> False | Some v \<Rightarrow> v \<noteq> [])"

definition getAvailability ::
  "store_error option \<Rightarrow> AvailabilityQuery \<Rightarrow> table \<Rightarrow> store_error + TimeSlot list" where
  "getAvailability fault query t =
     (if truthy (query_carer_id query) \<and> truthy (query_date query) then
        query_items fault
          (\<lambda>item. carer_id item = the (query_carer_id query)
                 \<and> prefix (the (query_date query)) (date_time_slot item)) t
      else if truthy (query_carer_id query) then
        query_items fault (\<lambda>item. carer_id item = the (query_carer_id query)) t
      else
        scan_items fault t)"

section \<open>bookAppointment and cancelAppointment\<close>

definition bookAppointment ::
  "store_error option \<Rightarrow> BookingRequest \<Rightarrow> table \<Rightarrow> (store_error + OpResult) \<times> table" where
  "bookAppointment fault booking t =
     (let dateTimeSlot = booking_date booking @ ''#'' @ booking_time_slot booking in
      case update_item fault (booking_carer_id booking, dateTimeSlot) Free
             (\<lambda>item. item\<lparr>availability := Booked,
                           booking_person_name := Some (person_name booking)\<rparr>) t of
        (Inr u, t') \<Rightarrow>
          (Inr \<lparr>success = True, message = ''Appointment booked successfully''\<rparr>, t')
      | (Inl error, t') \<Rightarrow>
          if error_name error = ''ConditionalCheckFailedException''
          then (Inr \<lparr>success = False,
                     message = ''Time slot is already booked or does not exist''\<rparr>, t')
          else (Inl error, t'))"

definition cancelAppointment ::
  "store_error option \<Rightarrow> string \<Rightarrow> string \<Rightarrow> string \<Rightarrow> table
     \<Rightarrow> (store_error + OpResult) \<times> table" where
  "cancelAppointment fault carer d timeSlot t =
     (let dateTimeSlot = d @ ''#'' @ timeSlot in
      case update_item fault (carer, dateTimeSlot) Booked
             (\<lambda>item. item\<lparr>availability := Free, booking_person_name := None\<rparr>) t of
        (Inr u, t') \<Rightarrow>
          (Inr \<lparr>success = True, message = ''Appointment cancelled successfully''\<rparr>, t')
      | (Inl error, t') \<Rightarrow>
          if error_name error = ''ConditionalCheckFailedException''
          then (Inr \<lparr>success = False, message = ''No booking found for this time slot''\<rparr>, t')
          else (Inl error, t'))"

text \<open>
  The key object of both update commands: \<open>carer_id\<close> and \<open>`${date}#${time_slot}`\<close>.
\<close>

definition booking_key :: "BookingRequest \<Rightarrow> slot_key" where
  "booking_key booking =
     (booking_carer_id booking, booking_date booking @ ''#'' @ booking_time_slot booking)"

text \<open>The two update expressions, as functions on the stored item.\<close>

definition set_booked :: "string \<Rightarrow> TimeSlot \<Rightarrow> TimeSlot" where
  "set_booked name item = item\<lparr>availability := Booked, booking_person_name := Some name\<rparr>"

definition set_free :: "TimeSlot \<Rightarrow> TimeSlot" where
  "set_free item = item\<lparr>availability := Free, booking_person_name := None\<rparr>"

definition rewrite_at :: "slot_key \<Rightarrow> (TimeSlot \<Rightarrow> TimeSlot) \<Rightarrow> table \<Rightarrow> table" where
  "rewrite_at k f t = map (\<lambda>old. if key_of old = k then f old else old) t"

text \<open>
  The condition \<open>availability = :expected\<close> evaluated at a key: false when no item is
  stored there.
\<close>

definition availability_is :: "Availability \<Rightarrow> slot_key \<Rightarrow> table \<Rightarrow> bool" where
  "availability_is expected k t =
     (case get_item k t of None \<Rightarrow> False | Some item \<Rightarrow> availability item = expected)"

section \<open>Runs of operations\<close>

text \<open>
  Concurrent callers of \<open>bookAppointment\<close>: every call sends one request, and the store
  takes the requests one at a time. A run is the list of the calls in the order the store
  takes them, each with the environment's answer to its request.
\<close>

fun book_all ::
  "(store_error option \<times> BookingRequest) list \<Rightarrow> table
     \<Rightarrow> (store_error + OpResult) list \<times> table" where
  "book_all [] t = ([], t)"
| "book_all ((fault, booking) # calls) t =
     (case bookAppointment fault booking t of
        (r, t') \<Rightarrow> (case book_all calls t' of (rs, t'') \<Rightarrow> (r # rs, t'')))"

definition succeeded :: "store_error + OpResult \<Rightarrow> bool" where
  "succeeded r = (case r of Inl e \<Rightarrow> False | Inr res \<Rightarrow> success res)"

text \<open>The operations that write, and the tables they reach from the empty table.\<close>

datatype operation =
    Initialize "TimeSlot \<Rightarrow> store_error option"
  | Book "store_error option" BookingRequest
  | Cancel "store_error option" string string string

fun apply_operation :: "operation \<Rightarrow> table \<Rightarrow> table" where
  "apply_operation (Initialize faults) t = snd (initializeTimeSlots faults t)"
| "apply_operation (Book fault booking) t = snd (bookAppointment fault booking t)"
| "apply_operation (Cancel fault carer d timeSlot) t =
     snd (cancelAppointment fault carer d timeSlot t)"

definition run_operations :: "operation list \<Rightarrow> table" where
  "run_operations ops = fold apply_operation ops []"

definition book_then_cancel :: "string \<Rightarrow> string \<Rightarrow> string \<Rightarrow> string \<Rightarrow> table \<Rightarrow> table" where
  "book_then_cancel carer d timeSlot name t =
     snd (cancelAppointment None carer d timeSlot
       (snd (bookAppointment None
          \<lparr>booking_carer_id = carer, booking_date = d, booking_time_slot = timeSlot,
           person_name = name\<rparr> t)))"

section \<open>Properties of tables\<close>

definition slot_invariant :: "TimeSlot \<Rightarrow> bool" where
  "slot_invariant item = ((booking_person_name item \<noteq> None) = (availability item = Booked))"

definition unique_keys :: "table \<Rightarrow> bool" where
  "unique_keys t = distinct (map key_of t)"

definition example_catalogue :: table where
  "example_catalogue =
     catalogue_items [''Carer1'', ''Carer2''] [''20250725'', ''20250726''] [''0900'', ''0930'']"

section \<open>The adapters' validation of a booking\<close>

text \<open>
  The arguments of a tool call are JSON values; \<open>JObject\<close> stands for every array and
  object. \<open>typeof\<close> is JavaScript's.
\<close>

datatype json = JNull | JBool bool | JNumber int | JString string | JObject

fun typeof :: "json \<Rightarrow> string" where
  "typeof JNull = ''object''"
| "typeof (JBool b) = ''boolean''"
| "typeof (JNumber n) = ''number''"
| "typeof (JString s) = ''string''"
| "typeof JObject = ''object''"

text \<open>\<open>args.carer_id as string\<close>, read only after the field has been checked to be a string.\<close>

fun string_of :: "json option \<Rightarrow> string" where
  "string_of (Some (JString s)) = s"
| "string_of _ = []"

text \<open>
  The result of the tool handler: \<open>ToolText r\<close> is the result whose text is the
  serialised \<open>r\<close>; \<open>ToolError m\<close> is the result built by the handler's \<open>catch\<close>, with
  \<open>isError: true\<close> and the error's message.
\<close>

datatype tool_result = ToolText OpResult | ToolError string

definition requiredFields :: "string list" where
  "requiredFields = [''carer_id'', ''date'', ''time_slot'', ''person_name'']"

text \<open>The case \<open>book_appointment\<close> of the tool handler (server.ts).\<close>

definition book_appointment_tool ::
  "store_error option \<Rightarrow> (string \<rightharpoonup> json) option \<Rightarrow> table \<Rightarrow> tool_result \<times> table" where
  "book_appointment_tool fault arguments t =
     (case arguments of
        None \<Rightarrow> (ToolError ''Invalid arguments for book_appointment'', t)
      | Some args \<Rightarrow>
          (case find (\<lambda>field. args field = None \<or> typeof (the (args field)) \<noteq> ''string'')
                  requiredFields of
             Some field \<Rightarrow> (ToolError (''Missing or invalid required field: '' @ field), t)
           | None \<Rightarrow>
               (case bookAppointment fault
                       \<lparr>booking_carer_id = string_of (args ''carer_id''),
                        booking_date = string_of (args ''date''),
                        booking_time_slot = string_of (args ''time_slot''),
                        person_name = string_of (args ''person_name'')\<rparr> t of
                  (Inr bookingResult, t') \<Rightarrow> (ToolText bookingResult, t')
                | (Inl error, t') \<Rightarrow> (ToolError (error_message error), t'))))"

text \<open>
  The route \<open>POST /api/book\<close>. The body is taken with string fields only (a field is
  absent or a string), as \<open>BookingRequest\<close> types them; the route itself tests
  truthiness and nothing else.
\<close>

datatype http_body = ResultBody OpResult | ErrorBody string

record http_response =
  status :: nat
  body :: http_body

definition api_book ::
  "store_error option \<Rightarrow> (string \<rightharpoonup> string) \<Rightarrow> table \<Rightarrow> http_response \<times> table" where
  "api_book fault req_body t =
     (if \<not> truthy (req_body ''carer_id'') \<or> \<not> truthy (req_body ''date'')
         \<or> \<not> truthy (req_body ''time_slot'') \<or> \<not> truthy (req_body ''person_name'')
      then (\<lparr>status = 400,
             body = ErrorBody ''Missing required fields: carer_id, date, time_slot, person_name''\<rparr>, t)
      else
        (case bookAppointment fault
                \<lparr>booking_carer_id = the (req_body ''carer_id''),
                 booking_date = the (req_body ''date''),
                 booking_time_slot = the (req_body ''time_slot''),
                 person_name = the (req_body ''person_name'')\<rparr> t of
           (Inr result, t') \<Rightarrow>
             (if success result then \<lparr>status = 200, body = ResultBody result\<rparr>
              else \<lparr>status = 400, body = ResultBody result\<rparr>, t')
         | (Inl error, t') \<Rightarrow> (\<lparr>status = 500, body = ErrorBody (error_message error)\<rparr>, t')))"

section \<open>The store requests of book and cancel\<close>

lemma ccfe_name [simp]:
  "error_name ConditionalCheckFailedException = ''ConditionalCheckFailedException''"
  by (simp add: ConditionalCheckFailedException_def)

lemma get_item_None_iff: "get_item k t = None \<longleftrightarrow> (\<forall>item \<in> set t. key_of item \<noteq> k)"
  by (auto simp: get_item_def find_None_iff)

lemma get_item_SomeD: "get_item k t = Some item \<Longrightarrow> item \<in> set t \<and> key_of item = k"
  by (auto simp: get_item_def find_Some_iff)

lemma get_item_append:
  "get_item k (t @ new) =
     (case get_item k t of None \<Rightarrow> get_item k new | Some item \<Rightarrow> Some item)"
  by (induction t) (auto simp: get_item_def)

lemma get_item_rewrite_at:
  assumes "\<And>x. key_of (f x) = key_of x"
  shows "get_item k' (rewrite_at k f t) =
     (if k' = k then map_option f (get_item k t) else get_item k' t)"
  using assms by (induction t) (auto simp: get_item_def rewrite_at_def)

lemma key_of_set_booked [simp]: "key_of (set_booked n x) = key_of x"
  by (simp add: key_of_def set_booked_def)

lemma key_of_set_free [simp]: "key_of (set_free x) = key_of x"
  by (simp add: key_of_def set_free_def)

lemma availability_isE:
  assumes "availability_is expected k t"
  obtains item where "get_item k t = Some item" "availability item = expected"
  using assms by (auto simp: availability_is_def split: option.splits)

lemma book_faulted:
  "bookAppointment (Some e) booking t =
     (if error_name e = ''ConditionalCheckFailedException''
      then (Inr \<lparr>success = False,
                 message = ''Time slot is already booked or does not exist''\<rparr>, t)
      else (Inl e, t))"
  by (simp add: Let_def bookAppointment_def update_item_def)

lemma book_free:
  assumes "get_item (booking_key booking) t = Some item" "availability item = Free"
  shows "bookAppointment None booking t =
     (Inr \<lparr>success = True, message = ''Appointment booked successfully''\<rparr>,
      rewrite_at (booking_key booking) (set_booked (person_name booking)) t)"
  using assms
  by (simp add: Let_def bookAppointment_def update_item_def booking_key_def rewrite_at_def
      set_booked_def)

lemma book_not_free:
  assumes "\<not> availability_is Free (booking_key booking) t"
  shows "bookAppointment None booking t =
     (Inr \<lparr>success = False, message = ''Time slot is already booked or does not exist''\<rparr>, t)"
  using assms
  by (auto simp add: Let_def bookAppointment_def update_item_def booking_key_def
      availability_is_def split: option.splits)

lemma cancel_faulted:
  "cancelAppointment (Some e) c d ts t =
     (if error_name e = ''ConditionalCheckFailedException''
      then (Inr \<lparr>success = False, message = ''No booking found for this time slot''\<rparr>, t)
      else (Inl e, t))"
  by (simp add: Let_def cancelAppointment_def update_item_def)

lemma cancel_booked:
  assumes "get_item (c, d @ ''#'' @ ts) t = Some item" "availability item = Booked"
  shows "cancelAppointment None c d ts t =
     (Inr \<lparr>success = True, message = ''Appointment cancelled successfully''\<rparr>,
      rewrite_at (c, d @ ''#'' @ ts) set_free t)"
  using assms
  by (simp add: Let_def cancelAppointment_def update_item_def rewrite_at_def set_free_def)

lemma cancel_not_booked:
  assumes "\<not> availability_is Booked (c, d @ ''#'' @ ts) t"
  shows "cancelAppointment None c d ts t =
     (Inr \<lparr>success = False, message = ''No booking found for this time slot''\<rparr>, t)"
  using assms
  by (auto simp add: Let_def cancelAppointment_def update_item_def availability_is_def
      split: option.splits)

lemma book_when_not_free:
  assumes "\<not> availability_is Free (booking_key booking) t"
  shows "snd (bookAppointment fault booking t) = t"
    and "\<not> succeeded (fst (bookAppointment fault booking t))"
    and "fault = None \<Longrightarrow> fst (bookAppointment fault booking t) =
       Inr \<lparr>success = False, message = ''Time slot is already booked or does not exist''\<rparr>"
  using book_not_free [OF assms]
  by (cases fault; simp add: book_faulted succeeded_def)+

lemma booked_after_book:
  assumes "get_item k t = Some item"
  shows "\<not> availability_is Free k (rewrite_at k (set_booked name) t)"
proof -
  have "get_item k (rewrite_at k (set_booked name) t) = Some (set_booked name item)"
    using assms by (simp add: get_item_rewrite_at)
  then show ?thesis by (simp add: availability_is_def set_booked_def)
qed

text \<open>
  C2. When the condition of the write fails (\<open>availability_is\<close> false: the slot is in the
  other state or absent) and the store answers, book and cancel return
  \<open>success = False\<close> with their message and the table is as before. When the store throws
  an error of any other name, that error is thrown to the caller and the table is as before.
\<close>

theorem precondition_failure_versus_store_error:
  "(\<not> availability_is Free (booking_key booking) t \<longrightarrow>
      bookAppointment None booking t =
        (Inr \<lparr>success = False,
              message = ''Time slot is already booked or does not exist''\<rparr>, t))
   \<and> (\<not> availability_is Booked (c, d @ ''#'' @ ts) t \<longrightarrow>
      cancelAppointment None c d ts t =
        (Inr \<lparr>success = False, message = ''No booking found for this time slot''\<rparr>, t))
   \<and> (error_name e \<noteq> ''ConditionalCheckFailedException'' \<longrightarrow>
      bookAppointment (Some e) booking t = (Inl e, t)
      \<and> cancelAppointment (Some e) c d ts t = (Inl e, t))"
  using book_not_free cancel_not_booked by (simp add: book_faulted cancel_faulted)

theorem precondition_failure_versus_store_error_witness:
  "bookAppointment None
      \<lparr>booking_carer_id = ''Doctor1'', booking_date = ''20250728'',
       booking_time_slot = ''0900'', person_name = ''Bob''\<rparr>
      [set_booked ''Alice'' (new_item ''Doctor1'' ''20250728'' ''0900'')]
    = (Inr \<lparr>success = False, message = ''Time slot is already booked or does not exist''\<rparr>,
       [set_booked ''Alice'' (new_item ''Doctor1'' ''20250728'' ''0900'')])
   \<and> cancelAppointment None ''Doctor2'' ''20250728'' ''0900''
      [set_booked ''Alice'' (new_item ''Doctor1'' ''20250728'' ''0900'')]
    = (Inr \<lparr>success = False, message = ''No booking found for this time slot''\<rparr>,
       [set_booked ''Alice'' (new_item ''Doctor1'' ''20250728'' ''0900'')])
   \<and> bookAppointment (Some (StoreError ''ProvisionedThroughputExceededException'' ''Rate exceeded''))
      \<lparr>booking_carer_id = ''Doctor1'', booking_date = ''20250728'',
       booking_time_slot = ''0900'', person_name = ''Bob''\<rparr>
      [set_booked ''Alice'' (new_item ''Doctor1'' ''20250728'' ''0900'')]
    = (Inl (StoreError ''ProvisionedThroughputExceededException'' ''Rate exceeded''),
       [set_booked ''Alice'' (new_item ''Doctor1'' ''20250728'' ''0900'')])
   \<and> cancelAppointment (Some (StoreError ''ProvisionedThroughputExceededException'' ''Rate exceeded''))
      ''Doctor2'' ''20250728'' ''0900''
      [set_booked ''Alice'' (new_item ''Doctor1'' ''20250728'' ''0900'')]
    = (Inl (StoreError ''ProvisionedThroughputExceededException'' ''Rate exceeded''),
       [set_booked ''Alice'' (new_item ''Doctor1'' ''20250728'' ''0900'')])"
proof -
  let ?t = "[set_booked ''Alice'' (new_item ''Doctor1'' ''20250728'' ''0900'')]"
  let ?b = "\<lparr>booking_carer_id = ''Doctor1'', booking_date = ''20250728'',
             booking_time_slot = ''0900'', person_name = ''Bob''\<rparr>"
  let ?e = "StoreError ''ProvisionedThroughputExceededException'' ''Rate exceeded''"
  have h1: "\<not> availability_is Free (booking_key ?b) ?t"
    by (simp add: availability_is_def get_item_def key_of_def booking_key_def new_item_def
        set_booked_def)
  have h2: "\<not> availability_is Booked (''Doctor2'', ''20250728'' @ ''#'' @ ''0900'') ?t"
    by (simp add: availability_is_def get_item_def key_of_def new_item_def set_booked_def)
  have h3: "error_name ?e \<noteq> ''ConditionalCheckFailedException''" by simp
  from precondition_failure_versus_store_error
         [of ?b ?t "''Doctor2''" "''20250728''" "''0900''" ?e] h1 h2 h3
  show ?thesis by blast
qed

section \<open>Runs of bookings of one slot\<close>

lemma book_all_Cons:
  "book_all ((fault, booking) # calls) t =
     (fst (bookAppointment fault booking t)
        # fst (book_all calls (snd (bookAppointment fault booking t))),
      snd (book_all calls (snd (bookAppointment fault booking t))))"
  by (simp split: prod.splits)

declare book_all.simps(2) [simp del]

lemma book_all_not_free_none:
  assumes "\<forall>(fault, booking) \<in> set calls. booking_key booking = k"
    and "\<not> availability_is Free k t"
  shows "filter succeeded (fst (book_all calls t)) = []"
  using assms
proof (induction calls)
  case Nil
  then show ?case by simp
next
  case (Cons call calls)
  obtain fault booking where call: "call = (fault, booking)" by (cases call)
  from Cons.prems call have nf: "\<not> availability_is Free (booking_key booking) t" by simp
  have "snd (bookAppointment fault booking t) = t"
    and "\<not> succeeded (fst (bookAppointment fault booking t))"
    using book_when_not_free(1,2) [OF nf] by simp_all
  with Cons show ?case by (simp add: call book_all_Cons)
qed

lemma book_all_not_free_results:
  assumes "\<forall>(fault, booking) \<in> set calls. booking_key booking = k \<and> fault = None"
    and "\<not> availability_is Free k t"
  shows "fst (book_all calls t) =
     replicate (length calls)
       (Inr \<lparr>success = False, message = ''Time slot is already booked or does not exist''\<rparr>)"
  using assms
proof (induction calls)
  case Nil
  then show ?case by simp
next
  case (Cons call calls)
  obtain fault booking where call: "call = (fault, booking)" by (cases call)
  from Cons.prems call
  have nf: "\<not> availability_is Free (booking_key booking) t" and f: "fault = None"
    by simp_all
  have "snd (bookAppointment None booking t) = t"
    and "fst (bookAppointment None booking t) =
      Inr \<lparr>success = False, message = ''Time slot is already booked or does not exist''\<rparr>"
    using book_when_not_free(1,3) [OF nf, of None] by simp_all
  with Cons show ?case by (simp add: call f book_all_Cons)
qed

lemma book_all_at_most_one:
  assumes "\<forall>(fault, booking) \<in> set calls. booking_key booking = k"
  shows "length (filter succeeded (fst (book_all calls t))) \<le> 1"
  using assms
proof (induction calls arbitrary: t)
  case Nil
  then show ?case by simp
next
  case (Cons call calls)
  show ?case
  proof (cases "availability_is Free k t")
    case False
    with book_all_not_free_none [OF Cons.prems] show ?thesis by simp
  next
    case True
    then obtain item where item: "get_item k t = Some item" "availability item = Free"
      by (rule availability_isE)
    obtain fault booking where call: "call = (fault, booking)" by (cases call)
    from Cons.prems call have k: "booking_key booking = k" by simp
    from Cons.prems have rest: "\<forall>(fault, booking) \<in> set calls. booking_key booking = k"
      by simp
    show ?thesis
    proof (cases fault)
      case None
      have b: "bookAppointment None booking t =
         (Inr \<lparr>success = True, message = ''Appointment booked successfully''\<rparr>,
          rewrite_at k (set_booked (person_name booking)) t)"
        using book_free [of booking t item] item k by simp
      from book_all_not_free_none
             [OF rest booked_after_book [OF item(1), of "person_name booking"]]
      show ?thesis by (simp add: call None book_all_Cons b)
    next
      case (Some e)
      from Cons.IH [OF rest, of t]
      show ?thesis by (simp add: call Some book_all_Cons book_faulted succeeded_def)
    qed
  qed
qed

lemma book_all_exactly_one:
  assumes "\<forall>(fault, booking) \<in> set calls. booking_key booking = k \<and> fault = None"
    and "availability_is Free k t" "calls \<noteq> []"
  shows "fst (book_all calls t) =
     Inr \<lparr>success = True, message = ''Appointment booked successfully''\<rparr>
       # replicate (length calls - 1)
           (Inr \<lparr>success = False,
                 message = ''Time slot is already booked or does not exist''\<rparr>)"
proof -
  from assms(2) obtain item where item: "get_item k t = Some item" "availability item = Free"
    by (rule availability_isE)
  from assms(3) obtain call rest where calls: "calls = call # rest" by (cases calls) auto
  obtain fault booking where call: "call = (fault, booking)" by (cases call)
  from assms(1) calls call have k: "booking_key booking = k" and f: "fault = None"
    by simp_all
  from assms(1) calls
  have rest: "\<forall>(fault, booking) \<in> set rest. booking_key booking = k \<and> fault = None"
    by simp
  have b: "bookAppointment None booking t =
     (Inr \<lparr>success = True, message = ''Appointment booked successfully''\<rparr>,
      rewrite_at k (set_booked (person_name booking)) t)"
    using book_free [of booking t item] item k by simp
  from book_all_not_free_results
         [OF rest booked_after_book [OF item(1), of "person_name booking"]]
  have "fst (book_all rest (rewrite_at k (set_booked (person_name booking)) t)) =
      replicate (length rest)
        (Inr \<lparr>success = False,
              message = ''Time slot is already booked or does not exist''\<rparr>)" .
  then show ?thesis by (simp add: calls call f book_all_Cons b)
qed

text \<open>
  C1. Take any number of \<open>bookAppointment\<close> calls for one slot key, in any order in which
  the store takes their requests and with any answers of the environment: at most one of
  them succeeds. When the slot is stored as Free, there is at least one call and the store
  answers every request, exactly one call succeeds (the one whose request the store takes
  first) and every other call returns \<open>success = False\<close> with the message
  "Time slot is already booked or does not exist".
\<close>

theorem concurrent_bookings_at_most_one:
  assumes "\<forall>(fault, booking) \<in> set calls. booking_key booking = k"
  shows "length (filter succeeded (fst (book_all calls t))) \<le> 1
     \<and> (availability_is Free k t \<and> calls \<noteq> [] \<and> (\<forall>(fault, booking) \<in> set calls. fault = None)
        \<longrightarrow> fst (book_all calls t) =
              Inr \<lparr>success = True, message = ''Appointment booked successfully''\<rparr>
                # replicate (length calls - 1)
                    (Inr \<lparr>success = False,
                          message = ''Time slot is already booked or does not exist''\<rparr>)
            \<and> length (filter succeeded (fst (book_all calls t))) = 1)"
proof (intro conjI impI)
  show "length (filter succeeded (fst (book_all calls t))) \<le> 1"
    by (rule book_all_at_most_one [OF assms])
next
  assume a: "availability_is Free k t \<and> calls \<noteq> []
    \<and> (\<forall>(fault, booking) \<in> set calls. fault = None)"
  with assms
  have all: "\<forall>(fault, booking) \<in> set calls. booking_key booking = k \<and> fault = None"
    by auto
  from a have free: "availability_is Free k t" and ne: "calls \<noteq> []" by simp_all
  show r: "fst (book_all calls t) =
      Inr \<lparr>success = True, message = ''Appointment booked successfully''\<rparr>
        # replicate (length calls - 1)
            (Inr \<lparr>success = False,
                  message = ''Time slot is already booked or does not exist''\<rparr>)"
    by (rule book_all_exactly_one [OF all free ne])
  show "length (filter succeeded (fst (book_all calls t))) = 1"
    unfolding r by (simp add: succeeded_def)
qed

theorem concurrent_bookings_at_most_one_witness:
  "fst (book_all
     [(None, \<lparr>booking_carer_id = ''Doctor1'', booking_date = ''20250728'',
              booking_time_slot = ''0900'', person_name = ''Alice''\<rparr>),
      (None, \<lparr>booking_carer_id = ''Doctor1'', booking_date = ''20250728'',
              booking_time_slot = ''0900'', person_name = ''Bob''\<rparr>),
      (None, \<lparr>booking_carer_id = ''Doctor1'', booking_date = ''20250728'',
              booking_time_slot = ''0900'', person_name = ''Carol''\<rparr>)]
     [new_item ''Doctor1'' ''20250728'' ''0900''])
   = [Inr \<lparr>success = True, message = ''Appointment booked successfully''\<rparr>,
      Inr \<lparr>success = False, message = ''Time slot is already booked or does not exist''\<rparr>,
      Inr \<lparr>success = False, message = ''Time slot is already booked or does not exist''\<rparr>]"
proof -
  let ?calls = "[(None, \<lparr>booking_carer_id = ''Doctor1'', booking_date = ''20250728'',
              booking_time_slot = ''0900'', person_name = ''Alice''\<rparr>),
      (None, \<lparr>booking_carer_id = ''Doctor1'', booking_date = ''20250728'',
              booking_time_slot = ''0900'', person_name = ''Bob''\<rparr>),
      (None :: store_error option, \<lparr>booking_carer_id = ''Doctor1'', booking_date = ''20250728'',
              booking_time_slot = ''0900'', person_name = ''Carol''\<rparr>)]"
  let ?t = "[new_item ''Doctor1'' ''20250728'' ''0900'']"
  let ?k = "(''Doctor1'', ''20250728#0900'')"
  have h1: "\<forall>(fault, booking) \<in> set ?calls. booking_key booking = ?k"
    by (simp add: booking_key_def)
  have h2: "availability_is Free ?k ?t"
    by (simp add: availability_is_def get_item_def key_of_def new_item_def)
  have h3: "?calls \<noteq> [] \<and> (\<forall>(fault, booking) \<in> set ?calls. fault = None)" by simp
  from concurrent_bookings_at_most_one [OF h1, of ?t] h2 h3
  show ?thesis by simp
qed

section \<open>The conditional puts of initializeTimeSlots\<close>

lemma put_if_absent_table:
  "snd (put_item fault item attribute_not_exists_carer_id t) =
     (if fault = None \<and> get_item (key_of item) t = None then t @ [item] else t)"
proof (cases "fault = None \<and> get_item (key_of item) t = None")
  case True
  then have "filter (\<lambda>old. key_of old \<noteq> key_of item) t = t"
    by (simp add: get_item_None_iff)
  with True show ?thesis
    by (simp add: put_item_def attribute_not_exists_carer_id_def)
next
  case False
  then show ?thesis
    by (auto simp: put_item_def attribute_not_exists_carer_id_def split: option.splits)
qed

lemma send_puts_Cons:
  "send_puts faults (item # items) t =
     (catch_ignore (fst (put_item (faults item) item attribute_not_exists_carer_id t))
        # fst (send_puts faults items
                 (snd (put_item (faults item) item attribute_not_exists_carer_id t))),
      snd (send_puts faults items
             (snd (put_item (faults item) item attribute_not_exists_carer_id t))))"
  by (simp split: prod.splits)

declare send_puts.simps(2) [simp del]

lemma send_puts_prefix: "prefix t (snd (send_puts faults items t))"
proof (induction items arbitrary: t)
  case Nil
  then show ?case by simp
next
  case (Cons item items)
  have "prefix t (snd (put_item (faults item) item attribute_not_exists_carer_id t))"
    by (simp add: put_if_absent_table)
  with Cons [of "snd (put_item (faults item) item attribute_not_exists_carer_id t)"]
  show ?case by (auto simp add: send_puts_Cons intro: prefix_order.trans)
qed

lemma prefix_get_item:
  assumes "prefix t t'" "get_item k t = Some item"
  shows "get_item k t' = Some item"
  using assms by (auto simp: prefix_def get_item_append)

lemma send_puts_set: "set (snd (send_puts faults items t)) \<subseteq> set t \<union> set items"
proof (induction items arbitrary: t)
  case Nil
  then show ?case by simp
next
  case (Cons item items)
  have "set (snd (put_item (faults item) item attribute_not_exists_carer_id t))
      \<subseteq> set t \<union> {item}"
    by (auto simp add: put_if_absent_table)
  with Cons [of "snd (put_item (faults item) item attribute_not_exists_carer_id t)"]
  show ?case by (auto simp add: send_puts_Cons)
qed

lemma send_puts_unique_keys:
  "unique_keys t \<Longrightarrow> unique_keys (snd (send_puts faults items t))"
proof (induction items arbitrary: t)
  case Nil
  then show ?case by simp
next
  case (Cons item items)
  have "unique_keys (snd (put_item (faults item) item attribute_not_exists_carer_id t))"
    using Cons.prems by (auto simp add: put_if_absent_table unique_keys_def get_item_None_iff)
  with Cons.IH show ?case by (simp add: send_puts_Cons)
qed

lemma send_puts_present:
  assumes "\<forall>item \<in> set items. get_item (key_of item) t \<noteq> None"
  shows "snd (send_puts faults items t) = t"
  using assms
proof (induction items)
  case Nil
  then show ?case by simp
next
  case (Cons item items)
  from Cons.prems
  have "snd (put_item (faults item) item attribute_not_exists_carer_id t) = t"
    by (simp add: put_if_absent_table)
  with Cons show ?case by (simp add: send_puts_Cons)
qed

lemma send_puts_all_faulted:
  assumes "\<forall>item \<in> set items. faults item \<noteq> None"
  shows "snd (send_puts faults items t) = t"
  using assms
proof (induction items)
  case Nil
  then show ?case by simp
next
  case (Cons item items)
  from Cons.prems
  have "snd (put_item (faults item) item attribute_not_exists_carer_id t) = t"
    by (simp add: put_if_absent_table)
  with Cons show ?case by (simp add: send_puts_Cons)
qed

lemma send_puts_no_fault_present:
  "\<forall>item \<in> set items.
     get_item (key_of item) (snd (send_puts (\<lambda>item. None) items t)) \<noteq> None"
proof (induction items arbitrary: t)
  case Nil
  then show ?case by simp
next
  case (Cons item items)
  let ?t' = "snd (put_item None item attribute_not_exists_carer_id t)"
  have "get_item (key_of item) [item] = Some item" by (simp add: get_item_def)
  then have "get_item (key_of item) ?t' \<noteq> None"
    by (auto simp add: put_if_absent_table get_item_append)
  then obtain x where "get_item (key_of item) ?t' = Some x" by blast
  from prefix_get_item [OF send_puts_prefix this]
  have "get_item (key_of item) (snd (send_puts (\<lambda>item. None) items ?t')) \<noteq> None" by simp
  with Cons [of ?t'] show ?case by (simp add: send_puts_Cons)
qed

lemma send_puts_resolved: "find isl (fst (send_puts faults items t)) = None"
proof (induction items arbitrary: t)
  case Nil
  then show ?case by simp
next
  case (Cons item items)
  then show ?case by (simp add: send_puts_Cons catch_ignore_def split: sum.splits)
qed

lemma initialize_unfold:
  "initializeTimeSlots faults t =
     (promise_all (fst (send_puts faults (catalogue_items carers dates generateTimeSlots) t)),
      snd (send_puts faults (catalogue_items carers dates generateTimeSlots) t))"
  by (simp add: initializeTimeSlots_def split: prod.splits)

lemma initialize_table:
  "snd (initializeTimeSlots faults t) =
     snd (send_puts faults (catalogue_items carers dates generateTimeSlots) t)"
  by (simp add: initialize_unfold)

lemma initialize_resolves: "fst (initializeTimeSlots faults t) = Inr ()"
  by (simp add: initialize_unfold promise_all_def send_puts_resolved)

lemma initialize_keeps:
  "get_item k t = Some item \<Longrightarrow> get_item k (snd (initializeTimeSlots faults t)) = Some item"
  unfolding initialize_table by (rule prefix_get_item [OF send_puts_prefix])

lemma initialize_twice:
  "snd (initializeTimeSlots faults (snd (initializeTimeSlots (\<lambda>item. None) t))) =
     snd (initializeTimeSlots (\<lambda>item. None) t)"
  unfolding initialize_table
  by (rule send_puts_present) (rule send_puts_no_fault_present)

text \<open>
  C3. Whatever the table holds and whatever the store answers, \<open>initializeTimeSlots\<close>
  leaves every item that is already stored exactly as it is (a Booked slot with its name
  stays Booked with its name), the old table being a prefix of the new one. After a call
  in which the store answered every put, a second call changes nothing at all: the table
  after two calls equals the table after one.
\<close>

theorem initialize_idempotent_seeding:
  "(get_item k t = Some item \<longrightarrow>
      get_item k (snd (initializeTimeSlots faults t)) = Some item)
   \<and> prefix t (snd (initializeTimeSlots faults t))
   \<and> snd (initializeTimeSlots faults (snd (initializeTimeSlots (\<lambda>item. None) t))) =
       snd (initializeTimeSlots (\<lambda>item. None) t)"
  using initialize_keeps [of k t item faults] initialize_twice [of faults t]
    send_puts_prefix [of t faults "catalogue_items carers dates generateTimeSlots"]
  by (simp add: initialize_table)

theorem initialize_idempotent_seeding_witness:
  "get_item (''Doctor1'', ''20250728#0900'')
     (snd (initializeTimeSlots (\<lambda>item. None)
        [set_booked ''Alice'' (new_item ''Doctor1'' ''20250728'' ''0900'')]))
   = Some (set_booked ''Alice'' (new_item ''Doctor1'' ''20250728'' ''0900''))"
proof -
  have "get_item (''Doctor1'', ''20250728#0900'')
      [set_booked ''Alice'' (new_item ''Doctor1'' ''20250728'' ''0900'')]
    = Some (set_booked ''Alice'' (new_item ''Doctor1'' ''20250728'' ''0900''))"
    by (simp add: get_item_def key_of_def new_item_def set_booked_def)
  with initialize_idempotent_seeding
         [of "(''Doctor1'', ''20250728#0900'')"
             "[set_booked ''Alice'' (new_item ''Doctor1'' ''20250728'' ''0900'')]"
             "set_booked ''Alice'' (new_item ''Doctor1'' ''20250728'' ''0900'')"
             "\<lambda>item. None"]
  show ?thesis by blast
qed

text \<open>
  C4. The specification wants only the already-exists failure of a put suppressed during
  initialize, every other failure of a write reaching the caller. The \<open>catch\<close> of
  \<open>initializeTimeSlots\<close> has no test of the error: here every put fails with a
  throttling error, nothing is written, and the call still resolves.
\<close>

theorem initialize_swallows_store_failure:
  "initializeTimeSlots
     (\<lambda>item. Some (StoreError ''ProvisionedThroughputExceededException'' ''Rate exceeded'')) []
   = (Inr (), [])"
proof -
  let ?faults =
    "\<lambda>item :: TimeSlot. Some (StoreError ''ProvisionedThroughputExceededException'' ''Rate exceeded'')"
  have "fst (initializeTimeSlots ?faults []) = Inr ()" by (rule initialize_resolves)
  moreover have "snd (initializeTimeSlots ?faults []) = []"
    unfolding initialize_table by (rule send_puts_all_faulted) simp
  ultimately show ?thesis by (simp add: prod_eq_iff)
qed

section \<open>The name is present exactly when the slot is Booked\<close>

lemma book_table:
  "snd (bookAppointment fault booking t) = t
   \<or> snd (bookAppointment fault booking t) =
       rewrite_at (booking_key booking) (set_booked (person_name booking)) t"
proof (cases fault)
  case None
  show ?thesis
  proof (cases "availability_is Free (booking_key booking) t")
    case False
    then show ?thesis by (simp add: book_when_not_free(1))
  next
    case True
    then obtain item
      where "get_item (booking_key booking) t = Some item" "availability item = Free"
      by (rule availability_isE)
    then show ?thesis by (simp add: None book_free)
  qed
next
  case (Some e)
  then show ?thesis by (simp add: book_faulted)
qed

lemma cancel_table:
  "snd (cancelAppointment fault c d ts t) = t
   \<or> snd (cancelAppointment fault c d ts t) = rewrite_at (c, d @ ''#'' @ ts) set_free t"
proof (cases fault)
  case None
  show ?thesis
  proof (cases "availability_is Booked (c, d @ ''#'' @ ts) t")
    case False
    then show ?thesis by (simp add: None cancel_not_booked)
  next
    case True
    then obtain item
      where "get_item (c, d @ ''#'' @ ts) t = Some item" "availability item = Booked"
      by (rule availability_isE)
    then show ?thesis by (simp add: None cancel_booked)
  qed
next
  case (Some e)
  then show ?thesis by (simp add: cancel_faulted)
qed

lemma slot_invariant_set_booked [simp]: "slot_invariant (set_booked name item)"
  by (simp add: slot_invariant_def set_booked_def)

lemma slot_invariant_set_free [simp]: "slot_invariant (set_free item)"
  by (simp add: slot_invariant_def set_free_def)

lemma slot_invariant_new_item [simp]: "slot_invariant (new_item carer d timeSlot)"
  by (simp add: slot_invariant_def new_item_def)

lemma catalogue_items_fresh:
  "list_all (\<lambda>item. availability item = Free \<and> booking_person_name item = None)
     (catalogue_items cs ds timeSlots)"
  by (auto simp: catalogue_items_def list_all_iff new_item_def)

lemma catalogue_items_invariant: "list_all slot_invariant (catalogue_items cs ds timeSlots)"
  by (auto simp: catalogue_items_def list_all_iff)

lemma rewrite_at_invariant:
  assumes "list_all slot_invariant t" "\<And>x. slot_invariant (f x)"
  shows "list_all slot_invariant (rewrite_at k f t)"
  using assms by (auto simp: list_all_iff rewrite_at_def)

lemma rewrite_at_keys [simp]:
  assumes "\<And>x. key_of (f x) = key_of x"
  shows "map key_of (rewrite_at k f t) = map key_of t"
  using assms by (simp add: rewrite_at_def)

lemma initialize_invariant:
  assumes "list_all slot_invariant t"
  shows "list_all slot_invariant (snd (initializeTimeSlots faults t))"
  using assms send_puts_set [of faults "catalogue_items carers dates generateTimeSlots" t]
    catalogue_items_invariant [of carers dates generateTimeSlots]
  unfolding initialize_table list_all_iff by blast

lemma initialize_new_items:
  assumes "item \<in> set (snd (initializeTimeSlots faults t))" "item \<notin> set t"
  shows "availability item = Free \<and> booking_person_name item = None"
  using assms send_puts_set [of faults "catalogue_items carers dates generateTimeSlots" t]
    catalogue_items_fresh [of carers dates generateTimeSlots]
  unfolding initialize_table list_all_iff by blast

lemma book_invariant:
  assumes "list_all slot_invariant t"
  shows "list_all slot_invariant (snd (bookAppointment fault booking t))"
  using book_table [of fault booking t] assms
    rewrite_at_invariant [of t "set_booked (person_name booking)" "booking_key booking"]
  by auto

lemma cancel_invariant:
  assumes "list_all slot_invariant t"
  shows "list_all slot_invariant (snd (cancelAppointment fault c d ts t))"
  using cancel_table [of fault c d ts t] assms
    rewrite_at_invariant [of t set_free "(c, d @ ''#'' @ ts)"]
  by auto

lemma apply_operation_invariant:
  "list_all slot_invariant t \<Longrightarrow> list_all slot_invariant (apply_operation operation t)"
  by (cases operation) (simp_all add: initialize_invariant book_invariant cancel_invariant)

lemma apply_operation_unique_keys:
  "unique_keys t \<Longrightarrow> unique_keys (apply_operation operation t)"
proof (cases operation)
  case (Initialize faults)
  assume "unique_keys t"
  then show ?thesis by (simp add: Initialize initialize_table send_puts_unique_keys)
next
  case (Book fault booking)
  assume "unique_keys t"
  with book_table [of fault booking t] show ?thesis
    by (auto simp: Book unique_keys_def)
next
  case (Cancel fault c d ts)
  assume "unique_keys t"
  with cancel_table [of fault c d ts t] show ?thesis
    by (auto simp: Cancel unique_keys_def)
qed

lemma fold_operations_wf:
  "unique_keys t \<and> list_all slot_invariant t \<Longrightarrow>
     unique_keys (fold apply_operation ops t)
     \<and> list_all slot_invariant (fold apply_operation ops t)"
  by (induction ops arbitrary: t)
     (simp_all add: apply_operation_invariant apply_operation_unique_keys)

lemma run_operations_wf:
  "unique_keys (run_operations ops) \<and> list_all slot_invariant (run_operations ops)"
  unfolding run_operations_def by (rule fold_operations_wf) (simp add: unique_keys_def)

lemma book_sets_name:
  assumes "get_item (booking_key booking) t = Some item" "availability item = Free"
  shows "get_item (booking_key booking) (snd (bookAppointment None booking t)) =
     Some (item\<lparr>availability := Booked, booking_person_name := Some (person_name booking)\<rparr>)"
proof -
  have "get_item (booking_key booking)
      (rewrite_at (booking_key booking) (set_booked (person_name booking)) t) =
      Some (set_booked (person_name booking) item)"
    using assms(1) by (simp add: get_item_rewrite_at)
  with book_free [OF assms] show ?thesis by (simp add: set_booked_def)
qed

lemma cancel_removes_name:
  assumes "get_item (c, d @ ''#'' @ ts) t = Some item" "availability item = Booked"
  shows "get_item (c, d @ ''#'' @ ts) (snd (cancelAppointment None c d ts t)) =
     Some (item\<lparr>availability := Free, booking_person_name := None\<rparr>)"
proof -
  have "get_item (c, d @ ''#'' @ ts) (rewrite_at (c, d @ ''#'' @ ts) set_free t) =
      Some (set_free item)"
    using assms(1) by (simp add: get_item_rewrite_at)
  with cancel_booked [OF assms] show ?thesis by (simp add: set_free_def)
qed

lemma generateTimeSlots_value:
  "generateTimeSlots =
     [''0900'', ''0930'', ''1000'', ''1030'', ''1100'', ''1130'', ''1200'',
      ''1230'', ''1300'', ''1330'', ''1400'', ''1430'', ''1500'', ''1530'']"
  by (simp add: generateTimeSlots_def hour_loop.simps minute_loop.simps timeString_def
      padStart_def toString.simps digit_char_def)

lemma catalogue_items_member:
  "x \<in> set (catalogue_items cs ds timeSlots) \<longleftrightarrow>
     (\<exists>carer \<in> set cs. \<exists>d \<in> set ds. \<exists>timeSlot \<in> set timeSlots. x = new_item carer d timeSlot)"
  by (auto simp: catalogue_items_def)

lemma key_of_new_item: "key_of (new_item carer d timeSlot) = (carer, d @ ''#'' @ timeSlot)"
  by (simp add: key_of_def new_item_def)

lemma dates_length: "d \<in> set dates \<Longrightarrow> length d = 8"
  by (auto simp: dates_def)

lemma catalogue_key_determines_item:
  assumes "x \<in> set (catalogue_items cs dates timeSlots)" "d \<in> set dates"
    and "key_of x = key_of (new_item carer d timeSlot)"
  shows "x = new_item carer d timeSlot"
proof -
  from assms(1) obtain carer' d' timeSlot'
    where x: "x = new_item carer' d' timeSlot'" and d': "d' \<in> set dates"
    by (auto simp: catalogue_items_member)
  from assms(3) have "carer' = carer" and e: "d' @ ''#'' @ timeSlot' = d @ ''#'' @ timeSlot"
    by (simp_all add: x key_of_new_item)
  moreover from d' assms(2) have "length d' = length d" by (simp add: dates_length)
  with e have "d' = d \<and> timeSlot' = timeSlot" by simp
  ultimately show ?thesis by (simp add: x)
qed

lemma send_puts_creates:
  assumes "item \<in> set items" "faults item = None" "get_item (key_of item) t = None"
    and "\<forall>x \<in> set items. key_of x = key_of item \<longrightarrow> x = item"
  shows "get_item (key_of item) (snd (send_puts faults items t)) = Some item"
  using assms
proof (induction items arbitrary: t)
  case Nil
  then show ?case by simp
next
  case (Cons y ys)
  let ?t' = "snd (put_item (faults y) y attribute_not_exists_carer_id t)"
  show ?case
  proof (cases "y = item")
    case True
    have "get_item (key_of item) [item] = Some item" by (simp add: get_item_def)
    with Cons.prems(2,3) True have "get_item (key_of item) ?t' = Some item"
      by (simp add: put_if_absent_table get_item_append)
    from prefix_get_item [OF send_puts_prefix this]
    show ?thesis by (simp add: send_puts_Cons)
  next
    case False
    with Cons.prems(4) have ky: "key_of y \<noteq> key_of item" by auto
    then have "get_item (key_of item) [y] = None" by (simp add: get_item_def)
    with Cons.prems(3) have "get_item (key_of item) ?t' = None"
      by (simp add: put_if_absent_table get_item_append)
    moreover from False Cons.prems(1) have "item \<in> set ys" by simp
    ultimately have "get_item (key_of item) (snd (send_puts faults ys ?t')) = Some item"
      using Cons.IH [of ?t'] Cons.prems(2,4) by simp
    then show ?thesis by (simp add: send_puts_Cons)
  qed
qed

lemma initialize_creates:
  assumes "carer \<in> set carers" "day \<in> set dates" "slot \<in> set generateTimeSlots"
    and "get_item (carer, day @ ''#'' @ slot) t = None"
    and "faults (new_item carer day slot) = None"
  shows "get_item (carer, day @ ''#'' @ slot) (snd (initializeTimeSlots faults t)) =
     Some (new_item carer day slot)"
proof -
  let ?items = "catalogue_items carers dates generateTimeSlots"
  have m: "new_item carer day slot \<in> set ?items"
    using assms(1,2,3) by (auto simp: catalogue_items_member)
  have u: "\<forall>x \<in> set ?items. key_of x = key_of (new_item carer day slot)
      \<longrightarrow> x = new_item carer day slot"
    using catalogue_key_determines_item [OF _ assms(2)] by blast
  from assms(4) have a: "get_item (key_of (new_item carer day slot)) t = None"
    by (simp add: key_of_new_item)
  have "get_item (key_of (new_item carer day slot)) (snd (send_puts faults ?items t)) =
      Some (new_item carer day slot)"
    by (rule send_puts_creates [where faults = faults, OF m assms(5) a u])
  then show ?thesis by (simp add: initialize_table key_of_new_item)
qed

lemma initialize_present:
  assumes "carer \<in> set carers" "day \<in> set dates" "slot \<in> set generateTimeSlots"
  shows "get_item (carer, day @ ''#'' @ slot) (snd (initializeTimeSlots (\<lambda>item. None) t)) \<noteq> None"
proof -
  have "new_item carer day slot \<in> set (catalogue_items carers dates generateTimeSlots)"
    using assms by (auto simp: catalogue_items_member)
  with send_puts_no_fault_present [of "catalogue_items carers dates generateTimeSlots" t]
  have "get_item (key_of (new_item carer day slot))
      (snd (send_puts (\<lambda>item. None) (catalogue_items carers dates generateTimeSlots) t)) \<noteq> None"
    by blast
  then show ?thesis by (simp add: initialize_table key_of_new_item)
qed

text \<open>
  C5. \<open>slot_invariant\<close>: the item has a \<open>booking_person_name\<close> exactly when its
  availability is Booked. It holds of every item of every table reached from the empty
  table by initialize, book and cancel calls, whatever the store answers, and each of the
  three operations preserves it from any table. Initialize creates the slots: after a call
  that the store answered, every slot of the catalogue is stored; a slot that was not
  stored and whose put is answered is stored as the new item, Free with no name; and
  whatever initialize adds is Free with no name. A successful book stores Booked and the
  name in its one write; a successful cancel stores Free and removes the name in its one
  write.
\<close>

theorem booking_name_iff_booked:
  "list_all slot_invariant (run_operations ops)
   \<and> (list_all slot_invariant t \<longrightarrow>
        list_all slot_invariant (snd (initializeTimeSlots faults t))
        \<and> list_all slot_invariant (snd (bookAppointment fault booking t))
        \<and> list_all slot_invariant (snd (cancelAppointment fault c d ts t)))
   \<and> list_all (\<lambda>new. availability new = Free \<and> booking_person_name new = None)
        (filter (\<lambda>new. new \<notin> set t) (snd (initializeTimeSlots faults t)))
   \<and> (carer \<in> set carers \<and> day \<in> set dates \<and> slot \<in> set generateTimeSlots \<longrightarrow>
        get_item (carer, day @ ''#'' @ slot) (snd (initializeTimeSlots (\<lambda>item. None) t))
          \<noteq> None
        \<and> (get_item (carer, day @ ''#'' @ slot) t = None
             \<and> faults (new_item carer day slot) = None \<longrightarrow>
            get_item (carer, day @ ''#'' @ slot) (snd (initializeTimeSlots faults t)) =
              Some \<lparr>carer_id = carer, date_time_slot = day @ ''#'' @ slot,
                    availability = Free, booking_person_name = None,
                    date = day, time_slot = slot\<rparr>))
   \<and> (get_item (booking_key booking) t = Some item \<and> availability item = Free \<longrightarrow>
        get_item (booking_key booking) (snd (bookAppointment None booking t)) =
          Some (item\<lparr>availability := Booked,
                     booking_person_name := Some (person_name booking)\<rparr>))
   \<and> (get_item (c, d @ ''#'' @ ts) t = Some item' \<and> availability item' = Booked \<longrightarrow>
        get_item (c, d @ ''#'' @ ts) (snd (cancelAppointment None c d ts t)) =
          Some (item'\<lparr>availability := Free, booking_person_name := None\<rparr>))"
proof (intro conjI impI)
  show "list_all slot_invariant (run_operations ops)"
    using run_operations_wf [of ops] by simp
next
  assume "list_all slot_invariant t"
  then show "list_all slot_invariant (snd (initializeTimeSlots faults t))"
    by (rule initialize_invariant)
next
  assume "list_all slot_invariant t"
  then show "list_all slot_invariant (snd (bookAppointment fault booking t))"
    by (rule book_invariant)
next
  assume "list_all slot_invariant t"
  then show "list_all slot_invariant (snd (cancelAppointment fault c d ts t))"
    by (rule cancel_invariant)
next
  show "list_all (\<lambda>new. availability new = Free \<and> booking_person_name new = None)
      (filter (\<lambda>new. new \<notin> set t) (snd (initializeTimeSlots faults t)))"
    using initialize_new_items [of _ faults t] by (simp add: list_all_iff)
next
  assume "carer \<in> set carers \<and> day \<in> set dates \<and> slot \<in> set generateTimeSlots"
  then show "get_item (carer, day @ ''#'' @ slot)
      (snd (initializeTimeSlots (\<lambda>item. None) t)) \<noteq> None"
    using initialize_present [of carer day slot t] by simp
next
  assume "carer \<in> set carers \<and> day \<in> set dates \<and> slot \<in> set generateTimeSlots"
    and "get_item (carer, day @ ''#'' @ slot) t = None
      \<and> faults (new_item carer day slot) = None"
  then have "get_item (carer, day @ ''#'' @ slot) (snd (initializeTimeSlots faults t)) =
      Some (new_item carer day slot)"
    using initialize_creates [of carer day slot t faults] by simp
  then show "get_item (carer, day @ ''#'' @ slot) (snd (initializeTimeSlots faults t)) =
      Some \<lparr>carer_id = carer, date_time_slot = day @ ''#'' @ slot,
            availability = Free, booking_person_name = None,
            date = day, time_slot = slot\<rparr>"
    by (simp add: new_item_def)
next
  assume "get_item (booking_key booking) t = Some item \<and> availability item = Free"
  then show "get_item (booking_key booking) (snd (bookAppointment None booking t)) =
      Some (item\<lparr>availability := Booked, booking_person_name := Some (person_name booking)\<rparr>)"
    by (simp add: book_sets_name)
next
  assume "get_item (c, d @ ''#'' @ ts) t = Some item' \<and> availability item' = Booked"
  then show "get_item (c, d @ ''#'' @ ts) (snd (cancelAppointment None c d ts t)) =
      Some (item'\<lparr>availability := Free, booking_person_name := None\<rparr>)"
    using cancel_removes_name [of c d ts t item'] by simp
qed

theorem booking_name_iff_booked_witness:
  "get_item (''Doctor1'', ''20250728#0900'') (run_operations [Initialize (\<lambda>item. None)])
     = Some \<lparr>carer_id = ''Doctor1'', date_time_slot = ''20250728#0900'',
             availability = Free, booking_person_name = None,
             date = ''20250728'', time_slot = ''0900''\<rparr>
   \<and> get_item (''Doctor1'', ''20250728#0900'')
       (run_operations
          [Initialize (\<lambda>item. None),
           Book None \<lparr>booking_carer_id = ''Doctor1'', booking_date = ''20250728'',
                      booking_time_slot = ''0900'', person_name = ''Alice''\<rparr>])
     = Some \<lparr>carer_id = ''Doctor1'', date_time_slot = ''20250728#0900'',
             availability = Booked, booking_person_name = Some ''Alice'',
             date = ''20250728'', time_slot = ''0900''\<rparr>
   \<and> get_item (''Doctor1'', ''20250728#0900'')
       (run_operations
          [Initialize (\<lambda>item. None),
           Book None \<lparr>booking_carer_id = ''Doctor1'', booking_date = ''20250728'',
                      booking_time_slot = ''0900'', person_name = ''Alice''\<rparr>,
           Cancel None ''Doctor1'' ''20250728'' ''0900''])
     = Some \<lparr>carer_id = ''Doctor1'', date_time_slot = ''20250728#0900'',
             availability = Free, booking_person_name = None,
             date = ''20250728'', time_slot = ''0900''\<rparr>
   \<and> list_all slot_invariant
       (run_operations
          [Initialize (\<lambda>item. None),
           Book None \<lparr>booking_carer_id = ''Doctor1'', booking_date = ''20250728'',
                      booking_time_slot = ''0900'', person_name = ''Alice''\<rparr>])"
proof -
  let ?b = "\<lparr>booking_carer_id = ''Doctor1'', booking_date = ''20250728'',
             booking_time_slot = ''0900'', person_name = ''Alice''\<rparr>"
  let ?k = "(''Doctor1'', ''20250728'' @ ''#'' @ ''0900'')"
  let ?free = "\<lparr>carer_id = ''Doctor1'', date_time_slot = ''20250728'' @ ''#'' @ ''0900'',
                availability = Free, booking_person_name = None,
                date = ''20250728'', time_slot = ''0900''\<rparr>"
  let ?t1 = "snd (initializeTimeSlots (\<lambda>item. None) [])"
  let ?t2 = "snd (bookAppointment None ?b ?t1)"
  let ?t3 = "snd (cancelAppointment None ''Doctor1'' ''20250728'' ''0900'' ?t2)"
  have k: "booking_key ?b = ?k" by (simp add: booking_key_def)
  have m: "''Doctor1'' \<in> set carers \<and> ''20250728'' \<in> set dates
      \<and> ''0900'' \<in> set generateTimeSlots"
    by (simp add: carers_def dates_def generateTimeSlots_value)
  have e: "get_item ?k [] = None \<and> (\<lambda>item. None) (new_item ''Doctor1'' ''20250728'' ''0900'') = None"
    by (simp add: get_item_def)
  from booking_name_iff_booked
         [where t = "[]" and faults = "\<lambda>item. None" and carer = "''Doctor1''"
            and day = "''20250728''" and slot = "''0900''"] m e
  have g1: "get_item ?k ?t1 = Some ?free" by blast
  have f1: "availability ?free = Free" by simp
  from booking_name_iff_booked [where t = ?t1 and booking = ?b and item = ?free] g1 f1
  have g2: "get_item ?k ?t2 =
      Some (?free\<lparr>availability := Booked, booking_person_name := Some ''Alice''\<rparr>)"
    unfolding k by simp
  have f2: "availability (?free\<lparr>availability := Booked,
      booking_person_name := Some ''Alice''\<rparr>) = Booked" by simp
  from booking_name_iff_booked
         [where t = ?t2 and c = "''Doctor1''" and d = "''20250728''" and ts = "''0900''"
            and item' = "?free\<lparr>availability := Booked, booking_person_name := Some ''Alice''\<rparr>"]
    g2 f2
  have g3: "get_item ?k ?t3 =
      Some (?free\<lparr>availability := Booked, booking_person_name := Some ''Alice''\<rparr>
              \<lparr>availability := Free, booking_person_name := None\<rparr>)"
    by blast
  from booking_name_iff_booked [where ops = "[Initialize (\<lambda>item. None), Book None ?b]"]
  have i: "list_all slot_invariant (run_operations [Initialize (\<lambda>item. None), Book None ?b])"
    by blast
  from g1 g2 g3 i show ?thesis by (simp add: run_operations_def)
qed

section \<open>Book, then cancel\<close>

lemma rewrite_free_after_booked:
  "rewrite_at k set_free (rewrite_at k (set_booked name) t) = rewrite_at k set_free t"
  by (induction t) (simp_all add: rewrite_at_def set_free_def set_booked_def key_of_def)

lemma unique_item:
  assumes "unique_keys t" "get_item k t = Some item" "x \<in> set t" "key_of x = k"
  shows "x = item"
proof -
  from assms(1) have "inj_on key_of (set t)" by (simp add: unique_keys_def distinct_map)
  moreover from get_item_SomeD [OF assms(2)] have "item \<in> set t" "key_of item = k"
    by simp_all
  ultimately show ?thesis using assms(3,4) by (auto dest: inj_onD)
qed

lemma rewrite_at_fixed:
  assumes "unique_keys t" "get_item k t = Some item" "f item = item"
  shows "rewrite_at k f t = t"
proof -
  have "\<forall>x \<in> set t. (if key_of x = k then f x else x) = x"
    using unique_item [OF assms(1,2)] assms(3) by auto
  then show ?thesis unfolding rewrite_at_def by (simp add: map_idI)
qed

lemma set_free_fixed:
  "availability item = Free \<Longrightarrow> booking_person_name item = None \<Longrightarrow> set_free item = item"
  by (simp add: set_free_def)

lemma free_slot_has_no_name:
  assumes "list_all slot_invariant t" "get_item k t = Some item" "availability item = Free"
  shows "booking_person_name item = None"
proof -
  from get_item_SomeD [OF assms(2)] assms(1) have "slot_invariant item"
    by (simp add: list_all_iff)
  with assms(3) show ?thesis by (simp add: slot_invariant_def)
qed

lemma book_then_cancel_restores:
  assumes "unique_keys t" "list_all slot_invariant t"
    and "get_item (c, d @ ''#'' @ ts) t = Some item" "availability item = Free"
  shows "book_then_cancel c d ts name t = t"
proof -
  let ?k = "(c, d @ ''#'' @ ts)"
  let ?b = "\<lparr>booking_carer_id = c, booking_date = d, booking_time_slot = ts,
             person_name = name\<rparr>"
  have k: "booking_key ?b = ?k" by (simp add: booking_key_def)
  have b: "snd (bookAppointment None ?b t) = rewrite_at ?k (set_booked name) t"
    using book_free [of ?b t item] assms(3,4) k by simp
  have g: "get_item ?k (rewrite_at ?k (set_booked name) t) = Some (set_booked name item)"
    using assms(3) by (simp add: get_item_rewrite_at)
  have "availability (set_booked name item) = Booked" by (simp add: set_booked_def)
  from cancel_booked [OF g this]
  have "snd (cancelAppointment None c d ts (rewrite_at ?k (set_booked name) t)) =
      rewrite_at ?k set_free t"
    by (simp add: rewrite_free_after_booked)
  moreover have "rewrite_at ?k set_free t = t"
    using assms free_slot_has_no_name [OF assms(2,3,4)]
    by (intro rewrite_at_fixed [where item = item] set_free_fixed) simp_all
  ultimately show ?thesis by (simp add: book_then_cancel_def b)
qed

lemma book_then_cancel_cycles:
  assumes "unique_keys t" "list_all slot_invariant t"
    and "get_item (c, d @ ''#'' @ ts) t = Some item" "availability item = Free"
  shows "fold (book_then_cancel c d ts) names t = t"
  using assms by (induction names) (simp_all add: book_then_cancel_restores)

text \<open>
  C6. In a table with one item per key that satisfies \<open>slot_invariant\<close> (every table
  reached from the empty one is such, \<open>run_operations_wf\<close>), take a slot stored as Free.
  With the store answering, booking it under any name succeeds and stores Booked with that
  name; cancelling then succeeds and gives back the table as it was before the booking,
  in which the slot is Free and has no name. The same holds over any sequence of
  book-and-cancel cycles with any names.
\<close>

theorem book_cancel_round_trip:
  assumes "unique_keys t" "list_all slot_invariant t"
    and "get_item (c, d @ ''#'' @ ts) t = Some item" "availability item = Free"
  shows "fst (bookAppointment None
            \<lparr>booking_carer_id = c, booking_date = d, booking_time_slot = ts,
             person_name = name\<rparr> t)
          = Inr \<lparr>success = True, message = ''Appointment booked successfully''\<rparr>
     \<and> get_item (c, d @ ''#'' @ ts)
          (snd (bookAppointment None
            \<lparr>booking_carer_id = c, booking_date = d, booking_time_slot = ts,
             person_name = name\<rparr> t))
          = Some (item\<lparr>availability := Booked, booking_person_name := Some name\<rparr>)
     \<and> cancelAppointment None c d ts
          (snd (bookAppointment None
            \<lparr>booking_carer_id = c, booking_date = d, booking_time_slot = ts,
             person_name = name\<rparr> t))
          = (Inr \<lparr>success = True, message = ''Appointment cancelled successfully''\<rparr>, t)
     \<and> booking_person_name item = None
     \<and> fold (book_then_cancel c d ts) names t = t"
proof -
  let ?k = "(c, d @ ''#'' @ ts)"
  let ?b = "\<lparr>booking_carer_id = c, booking_date = d, booking_time_slot = ts,
             person_name = name\<rparr>"
  have k: "booking_key ?b = ?k" by (simp add: booking_key_def)
  have b: "bookAppointment None ?b t =
      (Inr \<lparr>success = True, message = ''Appointment booked successfully''\<rparr>,
       rewrite_at ?k (set_booked name) t)"
    using book_free [of ?b t item] assms(3,4) k by simp
  have g: "get_item ?k (rewrite_at ?k (set_booked name) t) = Some (set_booked name item)"
    using assms(3) by (simp add: get_item_rewrite_at)
  have "availability (set_booked name item) = Booked" by (simp add: set_booked_def)
  from cancel_booked [OF g this]
  have c1: "cancelAppointment None c d ts (rewrite_at ?k (set_booked name) t) =
      (Inr \<lparr>success = True, message = ''Appointment cancelled successfully''\<rparr>,
       rewrite_at ?k set_free t)"
    by (simp add: rewrite_free_after_booked)
  have n: "booking_person_name item = None"
    by (rule free_slot_has_no_name [OF assms(2,3,4)])
  have r: "rewrite_at ?k set_free t = t"
    using assms(1,3,4) n by (intro rewrite_at_fixed [where item = item] set_free_fixed) simp_all
  show ?thesis
    using g n b c1 r book_then_cancel_cycles [OF assms, of names]
    by (simp add: set_booked_def)
qed

theorem book_cancel_round_trip_witness:
  "cancelAppointment None ''Doctor1'' ''20250728'' ''0900''
     (snd (bookAppointment None
        \<lparr>booking_carer_id = ''Doctor1'', booking_date = ''20250728'',
         booking_time_slot = ''0900'', person_name = ''Alice''\<rparr>
        [new_item ''Doctor1'' ''20250728'' ''0900'',
         set_booked ''Carol'' (new_item ''Doctor2'' ''20250728'' ''0900'')]))
   = (Inr \<lparr>success = True, message = ''Appointment cancelled successfully''\<rparr>,
      [new_item ''Doctor1'' ''20250728'' ''0900'',
       set_booked ''Carol'' (new_item ''Doctor2'' ''20250728'' ''0900'')])
   \<and> fold (book_then_cancel ''Doctor1'' ''20250728'' ''0900'') [''Alice'', ''Bob'']
       [new_item ''Doctor1'' ''20250728'' ''0900'',
        set_booked ''Carol'' (new_item ''Doctor2'' ''20250728'' ''0900'')]
     = [new_item ''Doctor1'' ''20250728'' ''0900'',
        set_booked ''Carol'' (new_item ''Doctor2'' ''20250728'' ''0900'')]"
proof -
  let ?t = "[new_item ''Doctor1'' ''20250728'' ''0900'',
             set_booked ''Carol'' (new_item ''Doctor2'' ''20250728'' ''0900'')]"
  have h1: "unique_keys ?t"
    by (simp add: unique_keys_def key_of_def new_item_def set_booked_def)
  have h2: "list_all slot_invariant ?t" by simp
  have h3: "get_item (''Doctor1'', ''20250728'' @ ''#'' @ ''0900'') ?t =
      Some (new_item ''Doctor1'' ''20250728'' ''0900'')"
    by (simp add: get_item_def key_of_def new_item_def)
  have h4: "availability (new_item ''Doctor1'' ''20250728'' ''0900'') = Free"
    by (simp add: new_item_def)
  from book_cancel_round_trip [OF h1 h2 h3 h4, of "''Alice''" "[''Alice'', ''Bob'']"]
  show ?thesis by blast
qed

section \<open>The generated time slots\<close>

text \<open>
  C7. \<open>generateTimeSlots\<close> (hours 9 to 15, step 30 minutes) returns 14 strings, pairwise
  distinct, each made of 4 decimal digits, the first \<open>0900\<close> and the last \<open>1530\<close>, in
  strictly increasing order (the order of JavaScript strings, which on these strings is
  the order of the times).
\<close>

theorem generateTimeSlots_correct:
  "length generateTimeSlots = 14
   \<and> distinct generateTimeSlots
   \<and> list_all (\<lambda>s. length s = 4 \<and> list_all (\<lambda>ch. ch \<in> set ''0123456789'') s)
        generateTimeSlots
   \<and> hd generateTimeSlots = ''0900''
   \<and> last generateTimeSlots = ''1530''
   \<and> sorted_wrt (<) generateTimeSlots"
  unfolding generateTimeSlots_value by code_simp

section \<open>Queries\<close>

text \<open>
  C8. \<open>getAvailability\<close>, the store answering: with a non-empty \<open>carer_id\<close> and a
  non-empty \<open>date\<close> the result is exactly the stored items of that carer whose
  \<open>date_time_slot\<close> begins with the date; with a non-empty \<open>carer_id\<close> and no (or an
  empty) \<open>date\<close>, exactly the stored items of that carer; with neither field, the whole
  table. On the catalogue of Carer1 and Carer2, dates 20250725 and 20250726, times 0900 and
  0930, the three queries return 2, 4 and 8 items.
\<close>

theorem getAvailability_filters:
  "(c \<noteq> [] \<and> d \<noteq> [] \<longrightarrow>
      getAvailability None \<lparr>query_carer_id = Some c, query_date = Some d\<rparr> t =
        Inr (filter (\<lambda>item. carer_id item = c \<and> prefix d (date_time_slot item)) t))
   \<and> (c \<noteq> [] \<and> \<not> truthy dq \<longrightarrow>
      getAvailability None \<lparr>query_carer_id = Some c, query_date = dq\<rparr> t =
        Inr (filter (\<lambda>item. carer_id item = c) t))
   \<and> getAvailability None \<lparr>query_carer_id = None, query_date = None\<rparr> t = Inr t
   \<and> getAvailability None \<lparr>query_carer_id = Some ''Carer1'', query_date = Some ''20250725''\<rparr>
        example_catalogue =
       Inr [new_item ''Carer1'' ''20250725'' ''0900'', new_item ''Carer1'' ''20250725'' ''0930'']
   \<and> getAvailability None \<lparr>query_carer_id = Some ''Carer1'', query_date = None\<rparr>
        example_catalogue =
       Inr [new_item ''Carer1'' ''20250725'' ''0900'', new_item ''Carer1'' ''20250725'' ''0930'',
            new_item ''Carer1'' ''20250726'' ''0900'', new_item ''Carer1'' ''20250726'' ''0930'']
   \<and> getAvailability None \<lparr>query_carer_id = None, query_date = None\<rparr> example_catalogue =
       Inr example_catalogue
   \<and> length example_catalogue = 8 \<and> distinct example_catalogue"
  by (simp add: getAvailability_def truthy_def query_items_def scan_items_def
      example_catalogue_def catalogue_items_def new_item_def)

theorem getAvailability_filters_witness:
  "getAvailability None \<lparr>query_carer_id = Some ''Carer2'', query_date = Some ''20250726''\<rparr>
     example_catalogue =
     Inr (filter (\<lambda>item. carer_id item = ''Carer2'' \<and> prefix ''20250726'' (date_time_slot item))
            example_catalogue)
   \<and> getAvailability None \<lparr>query_carer_id = Some ''Carer2'', query_date = Some []\<rparr>
     example_catalogue =
     Inr (filter (\<lambda>item. carer_id item = ''Carer2'') example_catalogue)"
proof -
  have h1: "''Carer2'' \<noteq> [] \<and> ''20250726'' \<noteq> []" by simp
  have h2: "''Carer2'' \<noteq> [] \<and> \<not> truthy (Some [])" by (simp add: truthy_def)
  from getAvailability_filters [of "''Carer2''" "''20250726''" example_catalogue "Some []"]
    h1 h2
  show ?thesis by blast
qed

text \<open>
  C10. When \<open>carer_id\<close> is absent or the empty string, \<open>getAvailability\<close> sends the
  scan whatever \<open>date\<close> holds: with the store answering, the result is the whole table,
  the date taking no part.
\<close>

theorem getAvailability_without_carer_scans:
  "\<not> truthy (query_carer_id query) \<Longrightarrow>
     getAvailability fault query t = scan_items fault t \<and> getAvailability None query t = Inr t"
  by (simp add: getAvailability_def scan_items_def)

theorem getAvailability_without_carer_scans_witness:
  "getAvailability None \<lparr>query_carer_id = None, query_date = Some ''20250725''\<rparr>
        example_catalogue = Inr example_catalogue
   \<and> new_item ''Carer2'' ''20250726'' ''0930'' \<in> set example_catalogue"
proof -
  have h: "\<not> truthy (query_carer_id \<lparr>query_carer_id = None, query_date = Some ''20250725''\<rparr>)"
    by (simp add: truthy_def)
  have m: "new_item ''Carer2'' ''20250726'' ''0930'' \<in> set example_catalogue"
    by (simp add: example_catalogue_def catalogue_items_def)
  from getAvailability_without_carer_scans [OF h, of None example_catalogue] m
  show ?thesis by blast
qed

section \<open>Validation of a booking request\<close>

lemma api_book_rejects:
  assumes "\<exists>field \<in> set requiredFields. req_body field = None \<or> req_body field = Some []"
  shows "api_book fault req_body t =
     (\<lparr>status = 400,
       body = ErrorBody ''Missing required fields: carer_id, date, time_slot, person_name''\<rparr>, t)"
  using assms by (auto simp add: api_book_def requiredFields_def truthy_def)

lemma book_appointment_tool_rejects_missing:
  assumes "field \<in> set requiredFields" "args field = None"
  shows "\<exists>msg. book_appointment_tool fault (Some args) t = (ToolError msg, t)"
proof -
  from assms
  have "find (\<lambda>field. args field = None \<or> typeof (the (args field)) \<noteq> ''string'')
      requiredFields \<noteq> None"
    by (auto simp: find_None_iff)
  then show ?thesis by (auto simp: book_appointment_tool_def)
qed

text \<open>
  C9. The specification wants a booking request with a missing or empty field rejected
  before any access to the store. The route \<open>/api/book\<close> does so
  (\<open>api_book_rejects\<close>); the tool handler tests only that each field is present and a
  string: with \<open>person_name\<close> the empty string it sends the update, and a Free slot
  becomes Booked with the empty name.
\<close>

theorem book_appointment_tool_accepts_empty_name:
  "book_appointment_tool None
     (Some [''carer_id'' \<mapsto> JString ''Doctor1'', ''date'' \<mapsto> JString ''20250728'',
            ''time_slot'' \<mapsto> JString ''0900'', ''person_name'' \<mapsto> JString ''''])
     [new_item ''Doctor1'' ''20250728'' ''0900'']
   = (ToolText \<lparr>success = True, message = ''Appointment booked successfully''\<rparr>,
      [(new_item ''Doctor1'' ''20250728'' ''0900'')
         \<lparr>availability := Booked, booking_person_name := Some ''''\<rparr>])"
  by (simp add: book_appointment_tool_def requiredFields_def bookAppointment_def
      update_item_def get_item_def key_of_def new_item_def Let_def)

end
